theory Spec2Isabelle
  imports
    Main
    "HOL-Library.Char_ord"
    "HOL-Library.List_Lexorder"
    "HOL-Library.Product_Lexorder"
    "HOL-Library.Sublist"
begin

section \<open>Strings\<close>

text \<open>
  Python strings are sequences of code points; the model uses \<^typ>\<open>string\<close>, whose
  characters are the code points U+0000 to U+00FF, and \<^const>\<open>length\<close> is Python's \<open>len\<close>.
  Every literal of \<open>processor.py\<close> that a decision depends on is ASCII.
\<close>

definition NL :: char where
  "NL = CHR 0x0A"

definition SLASH :: char where
  "SLASH = CHR ''/''"

definition DOT :: char where
  "DOT = CHR ''.''"

text \<open>\<open>str.lower()\<close> on U+0000..U+00FF: A-Z, and the Latin-1 capitals except the
  multiplication sign U+00D7, move up by 32.\<close>

definition lower_char :: "char \<Rightarrow> char" where
  "lower_char c =
     (let n = (of_char c :: nat)
      in if (65 \<le> n \<and> n \<le> 90) \<or> (192 \<le> n \<and> n \<le> 222 \<and> n \<noteq> 215)
         then char_of (n + 32) else c)"

definition lower :: "string \<Rightarrow> string" where
  "lower s = map lower_char s"

text \<open>\<open>s.endswith(t)\<close>.\<close>

definition endswith :: "string \<Rightarrow> string \<Rightarrow> bool" where
  "endswith s t = (length t \<le> length s \<and> drop (length s - length t) s = t)"

text \<open>\<open>s.count(c)\<close> for a one-character \<open>c\<close>.\<close>

definition count_char :: "string \<Rightarrow> char \<Rightarrow> int" where
  "count_char s c = int (length (filter (\<lambda>x. x = c) s))"

text \<open>\<open>s.rfind(c)\<close> for a one-character \<open>c\<close>: the highest index holding \<open>c\<close>, or \<open>-1\<close>.\<close>

fun rfind :: "string \<Rightarrow> char \<Rightarrow> int" where
  "rfind [] c = - 1"
| "rfind (x # xs) c =
     (let r = rfind xs c in if 0 \<le> r then r + 1 else if x = c then 0 else - 1)"

text \<open>The slice \<open>s[:n]\<close>: a negative \<open>n\<close> counts from the end.\<close>

definition py_prefix :: "int \<Rightarrow> 'a list \<Rightarrow> 'a list" where
  "py_prefix n s = (if 0 \<le> n then take (nat n) s else take (nat (int (length s) + n)) s)"

text \<open>\<open>s.split(c)\<close> for a one-character separator.\<close>

fun split_on :: "char \<Rightarrow> string \<Rightarrow> string list" where
  "split_on c [] = [[]]"
| "split_on c (x # xs) =
     (if x = c then [] # split_on c xs
      else (case split_on c xs of [] \<Rightarrow> [[x]] | w # ws \<Rightarrow> (x # w) # ws))"

text \<open>\<open>sep.join(parts)\<close>.\<close>

fun join :: "string \<Rightarrow> string list \<Rightarrow> string" where
  "join sep [] = []"
| "join sep [x] = x"
| "join sep (x # y # ys) = x @ sep @ join sep (y # ys)"

text \<open>\<open>str(n)\<close> for a natural number: its decimal digits.\<close>

definition digit_char :: "nat \<Rightarrow> char" where
  "digit_char d = char_of (48 + d)"

fun str_nat :: "nat \<Rightarrow> string" where
  "str_nat n = (if n < 10 then [digit_char n] else str_nat (n div 10) @ [digit_char (n mod 10)])"

declare str_nat.simps [simp del]

definition str_int :: "int \<Rightarrow> string" where
  "str_int i = (if i < 0 then CHR ''-'' # str_nat (nat (- i)) else str_nat (nat i))"

section \<open>Paths: the part of \<open>PurePosixPath\<close> that the classifiers read\<close>

text \<open>
  \<open>PurePosixPath(path).parts\<close>: the root (\<open>//\<close> for exactly two leading slashes, \<open>/\<close> for any
  other number of them) followed by the components between slashes, the empty ones and
  the \<open>.\<close> ones dropped.
\<close>

definition path_root :: "string \<Rightarrow> string" where
  "path_root p =
     (if take 1 p \<noteq> [SLASH] then []
      else if take 1 (drop 1 p) \<noteq> [SLASH] \<or> take 1 (drop 2 p) = [SLASH] then [SLASH]
      else [SLASH, SLASH])"

definition path_tail :: "string \<Rightarrow> string list" where
  "path_tail p = filter (\<lambda>x. x \<noteq> [] \<and> x \<noteq> [DOT]) (split_on SLASH p)"

definition parts :: "string \<Rightarrow> string list" where
  "parts p = (if path_root p = [] then path_tail p else path_root p # path_tail p)"

text \<open>\<open>PurePosixPath(path).name\<close>: the last component, empty when there is none.\<close>

definition name :: "string \<Rightarrow> string" where
  "name p = (if path_tail p = [] then [] else last (path_tail p))"

text \<open>\<open>PurePosixPath(path).suffix\<close>: from the last dot of the name on, when that dot is
  neither the first nor the last character of the name (Python up to 3.13).\<close>

definition suffix_of :: "string \<Rightarrow> string" where
  "suffix_of p =
     (let n = name p; i = rfind n DOT
      in if 0 < i \<and> i < int (length n) - 1 then drop (nat i) n else [])"

section \<open>Regular expressions\<close>

text \<open>
  The patterns of \<open>processor.py\<close> use literals, \<open>.\<close>, \<open>\d\<close>, \<open>\w\<close>, a character set,
  \<open>^\<close>, \<open>$\<close>, grouping, alternation, \<open>?\<close>, \<open>*\<close> and \<open>+\<close>. Only whether a pattern matches is
  ever used, so the matcher collects every position a match can end at.
\<close>

datatype rx =
    Eps
  | Chr char
  | Dot
  | Digit
  | Word
  | OneOf string
  | Bol
  | Eol
  | Seq rx rx
  | Alt rx rx
  | Opt rx
  | Star rx

definition Plus :: "rx \<Rightarrow> rx" where
  "Plus r = Seq r (Star r)"

definition Str :: "string \<Rightarrow> rx" where
  "Str s = foldr (\<lambda>c r. Seq (Chr c) r) s Eps"

definition Seqs :: "rx list \<Rightarrow> rx" where
  "Seqs rs = foldr Seq rs Eps"

fun Alts :: "rx list \<Rightarrow> rx" where
  "Alts [] = Eps"
| "Alts [r] = r"
| "Alts (r # rs) = Alt r (Alts rs)"

text \<open>\<open>\d\<close> and \<open>\w\<close> of a Unicode pattern, on U+0000..U+00FF: the decimal digits are 0-9;
  the word characters are the underscore and what \<open>str.isalnum\<close> accepts.\<close>

definition is_digit :: "char \<Rightarrow> bool" where
  "is_digit c = (let n = (of_char c :: nat) in 48 \<le> n \<and> n \<le> 57)"

definition is_word :: "char \<Rightarrow> bool" where
  "is_word c =
     (let n = (of_char c :: nat)
      in (48 \<le> n \<and> n \<le> 57) \<or> (65 \<le> n \<and> n \<le> 90) \<or> n = 95 \<or> (97 \<le> n \<and> n \<le> 122)
         \<or> n = 170 \<or> n = 178 \<or> n = 179 \<or> n = 181 \<or> n = 185 \<or> n = 186
         \<or> n = 188 \<or> n = 189 \<or> n = 190
         \<or> (192 \<le> n \<and> n \<le> 214) \<or> (216 \<le> n \<and> n \<le> 246) \<or> 248 \<le> n)"

text \<open>A cursor is the unread rest of the subject, with whether nothing has been read yet.\<close>

type_synonym cursor = "bool \<times> string"

definition eat :: "(char \<Rightarrow> bool) \<Rightarrow> cursor \<Rightarrow> cursor list" where
  "eat ok c = (case snd c of [] \<Rightarrow> [] | x # xs \<Rightarrow> if ok x then [(False, xs)] else [])"

fun star_from :: "(cursor \<Rightarrow> cursor list) \<Rightarrow> nat \<Rightarrow> cursor \<Rightarrow> cursor list" where
  "star_from step 0 c = [c]"
| "star_from step (Suc n) c =
     c # concat (map (star_from step n)
                  (filter (\<lambda>d. length (snd d) < length (snd c)) (step c)))"

text \<open>\<open>ic\<close> is \<open>re.IGNORECASE\<close>. \<open>$\<close> matches at the end and before a final newline.\<close>

fun rx_ends :: "bool \<Rightarrow> rx \<Rightarrow> cursor \<Rightarrow> cursor list" where
  "rx_ends ic Eps c = [c]"
| "rx_ends ic (Chr a) c =
     eat (\<lambda>x. if ic then lower_char x = lower_char a else x = a) c"
| "rx_ends ic Dot c = eat (\<lambda>x. x \<noteq> NL) c"
| "rx_ends ic Digit c = eat is_digit c"
| "rx_ends ic Word c = eat is_word c"
| "rx_ends ic (OneOf cs) c =
     eat (\<lambda>x. if ic then lower_char x \<in> set (lower cs) else x \<in> set cs) c"
| "rx_ends ic Bol c = (if fst c then [c] else [])"
| "rx_ends ic Eol c = (if snd c = [] \<or> snd c = [NL] then [c] else [])"
| "rx_ends ic (Seq r1 r2) c = concat (map (rx_ends ic r2) (rx_ends ic r1 c))"
| "rx_ends ic (Alt r1 r2) c = rx_ends ic r1 c @ rx_ends ic r2 c"
| "rx_ends ic (Opt r) c = rx_ends ic r c @ [c]"
| "rx_ends ic (Star r) c = star_from (rx_ends ic r) (length (snd c)) c"

text \<open>\<open>pattern.match(s)\<close> tries the start of \<open>s\<close>; \<open>pattern.search(s)\<close> tries every position.\<close>

definition rx_match :: "bool \<Rightarrow> rx \<Rightarrow> string \<Rightarrow> bool" where
  "rx_match ic r s = (rx_ends ic r (True, s) \<noteq> [])"

fun rx_search_at :: "bool \<Rightarrow> rx \<Rightarrow> bool \<Rightarrow> string \<Rightarrow> bool" where
  "rx_search_at ic r b [] = (rx_ends ic r (b, []) \<noteq> [])"
| "rx_search_at ic r b (x # xs) =
     (rx_ends ic r (b, x # xs) \<noteq> [] \<or> rx_search_at ic r False xs)"

definition rx_search :: "bool \<Rightarrow> rx \<Rightarrow> string \<Rightarrow> bool" where
  "rx_search ic r s = rx_search_at ic r True s"

section \<open>Configuration\<close>

definition CHAR_BUDGET :: int where
  "CHAR_BUDGET = 70000"

definition MAX_FILE_CHARS :: int where
  "MAX_FILE_CHARS = 6000"

definition TREE_MAX_ENTRIES :: nat where
  "TREE_MAX_ENTRIES = 500"

section \<open>Skip rules\<close>

definition SKIP_DIRS :: "string list" where
  "SKIP_DIRS =
     [''node_modules'', ''vendor'', ''dist'', ''build'', ''.git'', ''__pycache__'',
      ''.next'', ''.nuxt'', ''venv'', ''.venv'', ''env'', ''.env'', ''target'',
      ''coverage'', ''.nyc_output'', ''eggs'', ''.eggs'', ''*.egg-info'',
      ''htmlcov'', ''.tox'', ''.pytest_cache'', ''.mypy_cache'', ''.ruff_cache'',
      ''site-packages'', ''bower_components'', ''jspm_packages'']"

definition SKIP_EXTENSIONS :: "string list" where
  "SKIP_EXTENSIONS =
     [''.png'', ''.jpg'', ''.jpeg'', ''.gif'', ''.svg'', ''.ico'', ''.webp'', ''.bmp'', ''.tiff'',
      ''.mp4'', ''.mp3'', ''.wav'', ''.ogg'', ''.mov'', ''.avi'',
      ''.woff'', ''.woff2'', ''.ttf'', ''.eot'', ''.otf'',
      ''.pdf'', ''.doc'', ''.docx'', ''.xls'', ''.xlsx'', ''.ppt'', ''.pptx'',
      ''.zip'', ''.tar'', ''.gz'', ''.bz2'', ''.7z'', ''.rar'', ''.xz'',
      ''.exe'', ''.dll'', ''.so'', ''.dylib'', ''.a'', ''.lib'',
      ''.pyc'', ''.pyo'', ''.class'', ''.jar'', ''.war'',
      ''.bin'', ''.dat'', ''.db'', ''.sqlite'', ''.sqlite3'',
      ''.lock'']"

definition SKIP_FILENAMES :: "string list" where
  "SKIP_FILENAMES =
     [''package-lock.json'', ''yarn.lock'', ''poetry.lock'', ''Pipfile.lock'',
      ''composer.lock'', ''Gemfile.lock'', ''cargo.lock'', ''pnpm-lock.yaml'',
      ''shrinkwrap.json'', ''npm-shrinkwrap.json'',
      ''.DS_Store'', ''Thumbs.db'', ''.gitkeep'']"

definition SKIP_PATTERNS :: "rx list" where
  "SKIP_PATTERNS =
     [Seqs [Str ''.min.'', Alts [Str ''js'', Str ''css''], Eol],
      Seqs [Str ''.bundle.js'', Eol],
      Seqs [Chr DOT, Alts [Str ''pb'', Str ''pb2''], Str ''.go'', Eol],
      Seqs [Str ''.generated.'', Plus Word, Eol],
      Seqs [Str ''_pb2.py'', Eol],
      Seqs [Str ''migration'', Opt (Chr CHR ''s''), Chr SLASH, Plus Digit, Star Dot,
            Str ''.py'', Eol],
      Seqs [Str ''.snap'', Eol],
      Seqs [Str ''.map'', Eol],
      Seqs [Str ''test'', Opt (OneOf ''_-''), Str ''fixture'', Opt (Chr CHR ''s''), Chr SLASH],
      Seqs [Str ''fixture'', Opt (Chr CHR ''s''), Chr SLASH, Star Dot, Chr DOT,
            Alts [Str ''json'', Str ''yaml'', Str ''yml''], Eol]]"

text \<open>\<open>_should_skip\<close>: the four rules in the order of the source.\<close>

definition skip_dir_part :: "string \<Rightarrow> bool" where
  "skip_dir_part part = (lower part \<in> set SKIP_DIRS \<or> endswith part ''.egg-info'')"

definition should_skip :: "string \<Rightarrow> bool" where
  "should_skip path =
     (let ps = parts path; nm = name path; ext = lower (suffix_of path)
      in if list_ex skip_dir_part (butlast ps) then True
         else if nm \<in> set SKIP_FILENAMES then True
         else if ext \<in> set SKIP_EXTENSIONS then True
         else if list_ex (\<lambda>pattern. rx_search False pattern path) SKIP_PATTERNS then True
         else False)"

section \<open>Priority tiers\<close>

definition TIER1_NAMES :: rx where
  "TIER1_NAMES =
     Seqs [Bol,
           Alts [Str ''README'', Str ''ARCHITECTURE'', Str ''OVERVIEW'', Str ''CONTRIBUTING'',
                 Str ''CHANGELOG'', Str ''DESIGN''],
           Opt (Alts [Str ''.md'', Str ''.rst'', Str ''.txt'']),
           Eol]"

definition TIER2_NAMES :: "string list" where
  "TIER2_NAMES =
     [''package.json'', ''pyproject.toml'', ''setup.py'', ''setup.cfg'',
      ''Cargo.toml'', ''go.mod'', ''pom.xml'', ''build.gradle'', ''build.gradle.kts'',
      ''Gemfile'', ''composer.json'', ''mix.exs'', ''pubspec.yaml'',
      ''requirements.txt'', ''Pipfile'',
      ''Dockerfile'', ''docker-compose.yml'', ''docker-compose.yaml'',
      ''.env.example'', ''.env.sample'']"

definition TIER3_ENTRY_PATTERNS :: rx where
  "TIER3_ENTRY_PATTERNS =
     Seqs [Alt Bol (Chr SLASH),
           Alts [Str ''main'', Str ''app'', Str ''server'', Str ''index'', Str ''cli'',
                 Str ''__main__'', Str ''__init__''],
           Chr DOT,
           Alts [Str ''py'', Str ''go'', Str ''js'', Str ''ts'', Str ''rb'', Str ''rs'',
                 Str ''java'', Str ''cs'', Str ''cpp'', Str ''c''],
           Eol]"

definition TIER4_INFRA_PATTERNS :: rx where
  "TIER4_INFRA_PATTERNS =
     Alts [Str ''.github/workflows/'', Str ''.gitlab-ci'', Str ''Makefile'', Str ''Taskfile'',
           Str ''nginx.conf'', Str ''supervisord'', Str ''gunicorn'', Str ''uwsgi'']"

definition tier :: "string \<Rightarrow> int" where
  "tier path =
     (let nm = name path
      in if rx_match True TIER1_NAMES nm then 1
         else if nm \<in> set TIER2_NAMES then 2
         else if rx_search True TIER3_ENTRY_PATTERNS path then 3
         else if rx_search True TIER4_INFRA_PATTERNS path then 4
         else 5)"

section \<open>Selection under the budget\<close>

text \<open>An item of the GitHub tree: \<open>item["path"]\<close>, \<open>item.get("size")\<close> (absent on
  directory records) and \<open>item["type"]\<close>.\<close>

record tree_item =
  item_path :: string
  item_size :: "int option"
  item_type :: string

text \<open>A candidate is the tuple \<open>(path, size, tier)\<close>.\<close>

type_synonym candidate = "string \<times> int \<times> int"

definition candidate_of :: "tree_item \<Rightarrow> candidate" where
  "candidate_of item =
     (item_path item, (case item_size item of None \<Rightarrow> 0 | Some n \<Rightarrow> n), tier (item_path item))"

definition candidates :: "tree_item list \<Rightarrow> candidate list" where
  "candidates tree = map candidate_of (filter (\<lambda>item. \<not> should_skip (item_path item)) tree)"

text \<open>The key of \<open>candidates.sort\<close>: \<open>(x[2], x[1])\<close>, compared as tuples.\<close>

definition sort_key_of :: "candidate \<Rightarrow> int \<times> int" where
  "sort_key_of x = (snd (snd x), fst (snd x))"

definition sorted_candidates :: "tree_item list \<Rightarrow> candidate list" where
  "sorted_candidates tree = sort_key sort_key_of (candidates tree)"

text \<open>The loop over the sorted candidates, with the remaining budget as its state; the
  result is \<open>selected\<close> in the order of the appends.\<close>

fun select_loop :: "int \<Rightarrow> candidate list \<Rightarrow> string list" where
  "select_loop budget [] = []"
| "select_loop budget ((path, sz, tr) # rest) =
     (if budget \<le> 0 then []
      else let allotment = min sz MAX_FILE_CHARS
           in if allotment \<le> budget \<or> tr \<le> 2
              then path # select_loop (budget - allotment) rest
              else select_loop budget rest)"

definition filter_and_prioritize :: "tree_item list \<Rightarrow> string list" where
  "filter_and_prioritize tree = select_loop CHAR_BUDGET (sorted_candidates tree)"

section \<open>Content truncation\<close>

text \<open>The note appended to a truncated file.\<close>

definition annotation :: "int \<Rightarrow> int \<Rightarrow> string" where
  "annotation lines_kept lines_total =
     [NL, NL] @ ''... [truncated: showing '' @ str_int lines_kept @ ''/''
       @ str_int lines_total @ '' lines]''"

text \<open>
  The test \<open>last_newline > char_limit * 0.8\<close> compares an integer with a double. The double
  nearest to 0.8 exceeds it by a factor \<open>1 + 2^-54\<close>, and the product is rounded once more,
  so for \<open>|char_limit| < 2^49\<close> the product is within 0.1 of the exact value and is exactly
  \<open>4 * char_limit / 5\<close> when that is an integer: the test is \<open>4 * char_limit < 5 * last_newline\<close>.
\<close>

definition past_four_fifths :: "int \<Rightarrow> int \<Rightarrow> bool" where
  "past_four_fifths last_newline char_limit = (4 * char_limit < 5 * last_newline)"

definition truncated_text :: "string \<Rightarrow> int \<Rightarrow> string" where
  "truncated_text content char_limit =
     (let truncated = py_prefix char_limit content;
          last_newline = rfind truncated NL
      in if past_four_fifths last_newline char_limit
         then py_prefix last_newline truncated else truncated)"

definition truncate_file :: "string \<Rightarrow> string \<Rightarrow> int \<Rightarrow> string" where
  "truncate_file path content char_limit =
     (if int (length content) \<le> char_limit then content
      else let truncated = truncated_text content char_limit;
               lines_total = count_char content NL + 1;
               lines_kept = count_char truncated NL + 1
           in truncated @ annotation lines_kept lines_total)"

section \<open>Rendering\<close>

definition OMITTED :: string where
  "OMITTED = ''... [additional files omitted due to context budget]''"

definition FENCE :: string where
  "FENCE = [CHR 0x60, CHR 0x60, CHR 0x60]"

definition block_of :: "string \<times> string \<Rightarrow> string" where
  "block_of f =
     ''### '' @ fst f @ [NL] @ FENCE @ [NL]
       @ truncate_file (fst f) (snd f) MAX_FILE_CHARS @ [NL] @ FENCE"

text \<open>The loop of \<open>build_file_context\<close> over \<open>files.items()\<close>, a dictionary in insertion
  order, with the running \<open>total\<close> (here \<open>tot\<close>) as its state; the result is \<open>parts\<close>.\<close>

fun render_blocks :: "int \<Rightarrow> (string \<times> string) list \<Rightarrow> string list" where
  "render_blocks tot [] = []"
| "render_blocks tot (f # fs) =
     (let block = block_of f; tot' = tot + int (length block)
      in if CHAR_BUDGET \<le> tot' then [block, OMITTED]
         else block # render_blocks tot' fs)"

definition build_file_context :: "(string \<times> string) list \<Rightarrow> string" where
  "build_file_context files = join [NL, NL] (render_blocks 0 files)"

text \<open>The running total after the blocks of a list of files.\<close>

definition blocks_total :: "(string \<times> string) list \<Rightarrow> int" where
  "blocks_total fs = sum_list (map (\<lambda>f. int (length (block_of f))) fs)"

text \<open>The branch glyph of the tree rendering is U+2514 U+2500 U+2500 and a space; the three
  box-drawing characters lie outside U+0000..U+00FF and stand here in their UTF-8 bytes.\<close>

definition BRANCH :: string where
  "BRANCH = [CHR 0xE2, CHR 0x94, CHR 0x94, CHR 0xE2, CHR 0x94, CHR 0x80,
             CHR 0xE2, CHR 0x94, CHR 0x80, CHR 0x20]"

text \<open>The sorted paths that \<open>build_directory_tree\<close> keeps, before and after the cap.\<close>

definition tree_paths :: "tree_item list \<Rightarrow> string list" where
  "tree_paths tree =
     sort (map item_path
            (filter (\<lambda>item. item_type item = ''blob'' \<and> \<not> should_skip (item_path item)) tree))"

definition shown_paths :: "tree_item list \<Rightarrow> string list" where
  "shown_paths tree =
     (let paths = tree_paths tree
      in if TREE_MAX_ENTRIES < length paths then take TREE_MAX_ENTRIES paths else paths)"

definition tree_line :: "string \<Rightarrow> string" where
  "tree_line path =
     (let depth = nat (count_char path SLASH)
      in concat (replicate depth ''  '') @ (if 0 < depth then BRANCH else []) @ name path)"

definition build_directory_tree :: "tree_item list \<Rightarrow> string" where
  "build_directory_tree tree =
     (if tree_paths tree = [] then ''(empty)''
      else let truncated = (TREE_MAX_ENTRIES < length (tree_paths tree));
               lines = map tree_line (shown_paths tree)
           in join [NL]
                (lines @ (if truncated
                          then [''  ... [tree truncated at '' @ str_nat TREE_MAX_ENTRIES
                                  @ '' entries]'']
                          else [])))"

section \<open>The caller: \<open>fetch_repo_contents\<close>\<close>

text \<open>
  \<open>_get_tree\<close> returns the blob items of the API's tree listing. \<open>fetch_repo_contents\<close> is
  modelled from the point where that listing has arrived: it raises on an empty tree and
  on an empty selection, and otherwise goes on to fetch the selected paths; the model
  returns the rendered directory tree and the paths to fetch.
\<close>

datatype py_error = ValueError string

definition get_tree :: "tree_item list \<Rightarrow> tree_item list" where
  "get_tree listing = filter (\<lambda>item. item_type item = ''blob'') listing"

definition fetch_repo_contents :: "tree_item list \<Rightarrow> py_error + (string \<times> string list)" where
  "fetch_repo_contents listing =
     (let tree = get_tree listing
      in if tree = [] then Inl (ValueError ''Repository appears to be empty.'')
         else let directory_tree = build_directory_tree tree;
                  selected_paths = filter_and_prioritize tree
              in if selected_paths = []
                 then Inl (ValueError ''No readable files found in repository.'')
                 else Inr (directory_tree, selected_paths))"

section \<open>The selection loop\<close>










text \<open>
  Claim C1. The loop tests \<open>budget <= 0\<close> before it looks at the tier, so a candidate of
  tier 1 or 2 that is reached after the budget is spent is not selected. Twelve README
  files of 6000 bytes take the budget to \<open>-2000\<close>; the manifest \<open>package.json\<close>, of tier 2
  and sorted after them, is left out.
\<close>

theorem C1_tier2_dropped_after_budget_spent:
  "tier ''package.json'' = 2 \<and> \<not> should_skip ''package.json''
   \<and> filter_and_prioritize
        [\<lparr>item_path = ''package.json'', item_size = Some 1200, item_type = ''blob''\<rparr>,
         \<lparr>item_path = ''p01/README.md'', item_size = Some 6000, item_type = ''blob''\<rparr>,
         \<lparr>item_path = ''p02/README.md'', item_size = Some 6000, item_type = ''blob''\<rparr>,
         \<lparr>item_path = ''p03/README.md'', item_size = Some 6000, item_type = ''blob''\<rparr>,
         \<lparr>item_path = ''p04/README.md'', item_size = Some 6000, item_type = ''blob''\<rparr>,
         \<lparr>item_path = ''p05/README.md'', item_size = Some 6000, item_type = ''blob''\<rparr>,
         \<lparr>item_path = ''p06/README.md'', item_size = Some 6000, item_type = ''blob''\<rparr>,
         \<lparr>item_path = ''p07/README.md'', item_size = Some 6000, item_type = ''blob''\<rparr>,
         \<lparr>item_path = ''p08/README.md'', item_size = Some 6000, item_type = ''blob''\<rparr>,
         \<lparr>item_path = ''p09/README.md'', item_size = Some 6000, item_type = ''blob''\<rparr>,
         \<lparr>item_path = ''p10/README.md'', item_size = Some 6000, item_type = ''blob''\<rparr>,
         \<lparr>item_path = ''p11/README.md'', item_size = Some 6000, item_type = ''blob''\<rparr>,
         \<lparr>item_path = ''p12/README.md'', item_size = Some 6000, item_type = ''blob''\<rparr>]
      = [''p01/README.md'', ''p02/README.md'', ''p03/README.md'', ''p04/README.md'',
         ''p05/README.md'', ''p06/README.md'', ''p07/README.md'', ''p08/README.md'',
         ''p09/README.md'', ''p10/README.md'', ''p11/README.md'', ''p12/README.md'']"
  by code_simp






text \<open>
  Claim C9. After \<open>_get_tree\<close>, an empty tree raises \<open>ValueError\<close> with the message of the
  empty repository; a non-empty tree with an empty selection raises \<open>ValueError\<close> with the
  message of no readable files; any other tree raises neither. The two errors are
  different values: they differ in the message, not in the exception class.
\<close>

theorem C9_two_error_conditions:
  "(get_tree listing = [] \<longrightarrow>
      fetch_repo_contents listing = Inl (ValueError ''Repository appears to be empty.''))
   \<and> (get_tree listing \<noteq> [] \<and> filter_and_prioritize (get_tree listing) = [] \<longrightarrow>
      fetch_repo_contents listing = Inl (ValueError ''No readable files found in repository.''))
   \<and> (get_tree listing \<noteq> [] \<and> filter_and_prioritize (get_tree listing) \<noteq> [] \<longrightarrow>
      (\<exists>r. fetch_repo_contents listing = Inr r))
   \<and> ValueError ''No readable files found in repository.''
        \<noteq> ValueError ''Repository appears to be empty.''"
  by (simp add: fetch_repo_contents_def Let_def)

theorem C9_two_error_conditions_witness:
  "get_tree [\<lparr>item_path = ''assets'', item_size = None, item_type = ''tree''\<rparr>] = []
   \<and> fetch_repo_contents [\<lparr>item_path = ''assets'', item_size = None, item_type = ''tree''\<rparr>]
        = Inl (ValueError ''Repository appears to be empty.'')
   \<and> get_tree [\<lparr>item_path = ''assets/logo.png'', item_size = Some 2048, item_type = ''blob''\<rparr>]
        \<noteq> []
   \<and> filter_and_prioritize
        (get_tree [\<lparr>item_path = ''assets/logo.png'', item_size = Some 2048,
                     item_type = ''blob''\<rparr>]) = []
   \<and> fetch_repo_contents
        [\<lparr>item_path = ''assets/logo.png'', item_size = Some 2048, item_type = ''blob''\<rparr>]
        = Inl (ValueError ''No readable files found in repository.'')"
proof -
  let ?d = "[\<lparr>item_path = ''assets'', item_size = None, item_type = ''tree''\<rparr>]"
  let ?f = "[\<lparr>item_path = ''assets/logo.png'', item_size = Some 2048, item_type = ''blob''\<rparr>]"
  have d: "get_tree ?d = []" by (simp add: get_tree_def)
  have f1: "get_tree ?f \<noteq> []" by (simp add: get_tree_def)
  have f2: "filter_and_prioritize (get_tree ?f) = []" by code_simp
  show ?thesis
    using C9_two_error_conditions [of ?d] C9_two_error_conditions [of ?f] d f1 f2 by simp
qed



section \<open>Truncation\<close>

lemma rfind_upper: "rfind s c < int (length s)"
  by (induction s) (auto simp: Let_def)

lemma rfind_absent: "c \<notin> set s \<Longrightarrow> rfind s c = - 1"
  by (induction s) (auto simp: Let_def)

lemma rfind_last:
  "i < length s \<Longrightarrow> s ! i = c \<Longrightarrow> (\<forall>j. i < j \<and> j < length s \<longrightarrow> s ! j \<noteq> c)
     \<Longrightarrow> rfind s c = int i"
proof (induction s arbitrary: i)
  case Nil
  then show ?case by simp
next
  case (Cons x xs)
  show ?case
  proof (cases i)
    case 0
    have "c \<notin> set xs"
    proof
      assume "c \<in> set xs"
      then obtain j where "j < length xs" "xs ! j = c" by (auto simp: in_set_conv_nth)
      with Cons.prems(3) 0 show False by (auto dest: spec [where x = "Suc j"])
    qed
    with 0 Cons.prems show ?thesis by (simp add: rfind_absent Let_def)
  next
    case (Suc k)
    have "rfind xs c = int k"
    proof (rule Cons.IH)
      show "k < length xs" using Cons.prems Suc by simp
      show "xs ! k = c" using Cons.prems Suc by simp
      show "\<forall>j. k < j \<and> j < length xs \<longrightarrow> xs ! j \<noteq> c"
        using Cons.prems(3) Suc by (auto dest: spec [where x = "Suc j" for j])
    qed
    then show ?thesis using Suc by (simp add: Let_def)
  qed
qed

lemma truncated_text_nonneg:
  assumes "0 \<le> limit" "limit < int (length content)"
  shows "truncated_text content limit =
     (if 4 * limit < 5 * rfind (take (nat limit) content) NL
      then take (nat (rfind (take (nat limit) content) NL)) content
      else take (nat limit) content)"
proof -
  let ?t = "take (nat limit) content"
  have up: "rfind ?t NL < limit" using rfind_upper [of ?t NL] assms by simp
  have "4 * limit < 5 * rfind ?t NL \<Longrightarrow> 0 \<le> rfind ?t NL" using assms by linarith
  moreover have "0 \<le> rfind ?t NL \<Longrightarrow> take (nat (rfind ?t NL)) ?t = take (nat (rfind ?t NL)) content"
    using up by (simp add: min_def)
  ultimately show ?thesis using assms
    by (auto simp: truncated_text_def py_prefix_def past_four_fifths_def Let_def)
qed

lemma truncated_text_prefix:
  assumes "0 \<le> limit" "limit < int (length content)"
  shows "prefix (truncated_text content limit) content
         \<and> int (length (truncated_text content limit)) \<le> limit"
proof -
  let ?t = "take (nat limit) content"
  have up: "rfind ?t NL < limit" using rfind_upper [of ?t NL] assms by simp
  show ?thesis using assms up
    by (auto simp: truncated_text_nonneg take_is_prefix)
qed

text \<open>
  Claim C4, as amended. Truncating twice gives the result of truncating once whenever that
  result is no longer than the limit, which covers every content no longer than the limit.
\<close>

theorem C4_idempotent_when_result_fits:
  "int (length (truncate_file path content limit)) \<le> limit \<Longrightarrow>
   truncate_file path (truncate_file path content limit) limit = truncate_file path content limit"
  by (simp add: truncate_file_def [of path "truncate_file path content limit"])

text \<open>The claim as stated fails: the note makes the result longer than the limit, the
  second pass cuts the note off again and counts the lines of the first result.\<close>

theorem C4_not_idempotent:
  "truncate_file ''a.py'' ''abcdefghijk'' 10 = ''abcdefghij'' @ annotation 1 1
   \<and> truncate_file ''a.py'' (truncate_file ''a.py'' ''abcdefghijk'' 10) 10
       = ''abcdefghij'' @ annotation 1 3
   \<and> truncate_file ''a.py'' (truncate_file ''a.py'' ''abcdefghijk'' 10) 10
       \<noteq> truncate_file ''a.py'' ''abcdefghijk'' 10"
  by code_simp

theorem C4_idempotent_witness:
  "int (length (truncate_file ''a.py''
                  (replicate 161 CHR ''a'' @ [NL] @ replicate 60 CHR ''b'') 200)) \<le> 200
   \<and> truncate_file ''a.py'' (replicate 161 CHR ''a'' @ [NL] @ replicate 60 CHR ''b'') 200
       \<noteq> replicate 161 CHR ''a'' @ [NL] @ replicate 60 CHR ''b''
   \<and> truncate_file ''a.py''
        (truncate_file ''a.py'' (replicate 161 CHR ''a'' @ [NL] @ replicate 60 CHR ''b'') 200) 200
       = truncate_file ''a.py'' (replicate 161 CHR ''a'' @ [NL] @ replicate 60 CHR ''b'') 200"
proof -
  let ?c = "replicate 161 CHR ''a'' @ [NL] @ replicate 60 CHR ''b''"
  have h: "int (length (truncate_file ''a.py'' ?c 200)) \<le> 200" by code_simp
  have n: "truncate_file ''a.py'' ?c 200 \<noteq> ?c" by code_simp
  show ?thesis using C4_idempotent_when_result_fits [OF h] h n by simp
qed

text \<open>
  Claim C5. A limit is a number of characters, so it is not negative. Content no longer
  than the limit comes back unchanged; longer content comes back as a prefix of it, no
  longer than the limit, followed by the note, so the result is no longer than the limit
  plus the note.
\<close>

theorem C5_truncate_bounds:
  "0 \<le> limit \<Longrightarrow>
   (int (length content) \<le> limit \<longrightarrow> truncate_file path content limit = content)
   \<and> (limit < int (length content) \<longrightarrow>
        (\<exists>kept note. truncate_file path content limit = kept @ note
           \<and> prefix kept content \<and> int (length kept) \<le> limit
           \<and> note = annotation (count_char kept NL + 1) (count_char content NL + 1)
           \<and> int (length (truncate_file path content limit)) \<le> limit + int (length note)))"
proof (intro conjI impI)
  assume "int (length content) \<le> limit"
  then show "truncate_file path content limit = content" by (simp add: truncate_file_def)
next
  assume a: "0 \<le> limit" "limit < int (length content)"
  let ?k = "truncated_text content limit"
  let ?n = "annotation (count_char ?k NL + 1) (count_char content NL + 1)"
  have "truncate_file path content limit = ?k @ ?n"
    using a by (simp add: truncate_file_def Let_def)
  moreover have "prefix ?k content" "int (length ?k) \<le> limit"
    using truncated_text_prefix [OF a] by simp_all
  ultimately show "\<exists>kept note. truncate_file path content limit = kept @ note
           \<and> prefix kept content \<and> int (length kept) \<le> limit
           \<and> note = annotation (count_char kept NL + 1) (count_char content NL + 1)
           \<and> int (length (truncate_file path content limit)) \<le> limit + int (length note)"
    by (intro exI [of _ ?k] exI [of _ ?n]) simp
qed

theorem C5_truncate_bounds_witness:
  "(0::int) \<le> 10 \<and> truncate_file ''a.py'' ''abc'' 10 = ''abc''
   \<and> (10::int) < int (length ''abcdefghijk'')
   \<and> (\<exists>kept note. truncate_file ''a.py'' ''abcdefghijk'' 10 = kept @ note
           \<and> prefix kept ''abcdefghijk'' \<and> int (length kept) \<le> 10
           \<and> note = annotation (count_char kept NL + 1) (count_char ''abcdefghijk'' NL + 1)
           \<and> int (length (truncate_file ''a.py'' ''abcdefghijk'' 10)) \<le> 10 + int (length note))"
  using C5_truncate_bounds [of 10 "''abc''" "''a.py''"]
    C5_truncate_bounds [of 10 "''abcdefghijk''" "''a.py''"]
  by simp

text \<open>
  Claim C6, as amended. For content longer than a limit that is not negative, with \<open>i\<close> the
  index of the last newline among the first \<open>limit\<close> characters: the text is cut back to
  that newline exactly when \<open>i\<close> lies strictly after 80% of the limit (\<open>5 i > 4 limit\<close>);
  at exactly 80%, before it, and when there is no newline, the first \<open>limit\<close> characters are
  kept. The note follows what is kept.
\<close>

theorem C6_cut_strictly_after_four_fifths:
  assumes "0 \<le> limit" and "limit < int (length content)"
  shows "(i < nat limit \<and> content ! i = NL
            \<and> (\<forall>j. i < j \<and> j < nat limit \<longrightarrow> content ! j \<noteq> NL) \<longrightarrow>
            truncated_text content limit
              = (if 4 * limit < 5 * int i then take i content else take (nat limit) content))
         \<and> ((\<forall>j. j < nat limit \<longrightarrow> content ! j \<noteq> NL) \<longrightarrow>
              truncated_text content limit = take (nat limit) content)
         \<and> truncate_file path content limit
              = truncated_text content limit
                  @ annotation (count_char (truncated_text content limit) NL + 1)
                      (count_char content NL + 1)"
proof (intro conjI impI)
  assume h: "i < nat limit \<and> content ! i = NL
               \<and> (\<forall>j. i < j \<and> j < nat limit \<longrightarrow> content ! j \<noteq> NL)"
  let ?t = "take (nat limit) content"
  have len: "length ?t = nat limit" using assms by simp
  have "rfind ?t NL = int i"
  proof (rule rfind_last)
    show "i < length ?t" using h len by simp
    show "?t ! i = NL" using h by simp
    show "\<forall>j. i < j \<and> j < length ?t \<longrightarrow> ?t ! j \<noteq> NL" using h len by simp
  qed
  then show "truncated_text content limit
              = (if 4 * limit < 5 * int i then take i content else take (nat limit) content)"
    using assms by (simp add: truncated_text_nonneg)
next
  assume h: "\<forall>j. j < nat limit \<longrightarrow> content ! j \<noteq> NL"
  let ?t = "take (nat limit) content"
  have "NL \<notin> set ?t" using h assms by (auto simp: in_set_conv_nth)
  then have "rfind ?t NL = - 1" by (rule rfind_absent)
  then show "truncated_text content limit = take (nat limit) content"
    using assms by (simp add: truncated_text_nonneg)
next
  show "truncate_file path content limit
              = truncated_text content limit
                  @ annotation (count_char (truncated_text content limit) NL + 1)
                      (count_char content NL + 1)"
    using assms by (simp add: truncate_file_def Let_def)
qed

text \<open>The claim as stated, with 80% included, fails: a last newline at index 8 of the first
  10 characters is not cut back to.\<close>

theorem C6_newline_at_four_fifths_kept:
  "(10::int) < int (length (''abcdefgh'' @ [NL] @ ''jklm''))
   \<and> rfind (py_prefix 10 (''abcdefgh'' @ [NL] @ ''jklm'')) NL = 8
   \<and> truncate_file ''a.py'' (''abcdefgh'' @ [NL] @ ''jklm'') 10
        = ''abcdefgh'' @ [NL] @ ''j'' @ annotation 2 2
   \<and> truncate_file ''a.py'' (''abcdefgh'' @ [NL] @ ''jklm'') 10 \<noteq> ''abcdefgh'' @ annotation 1 2"
  by code_simp

theorem C6_cut_witness:
  "(0::int) \<le> 10 \<and> (10::int) < int (length (''abcdefghi'' @ [NL] @ ''klm''))
   \<and> truncated_text (''abcdefghi'' @ [NL] @ ''klm'') 10 = ''abcdefghi''
   \<and> (10::int) < int (length (''abcdefgh'' @ [NL] @ ''jklm''))
   \<and> truncated_text (''abcdefgh'' @ [NL] @ ''jklm'') 10 = ''abcdefgh'' @ [NL] @ ''j''
   \<and> (10::int) < int (length ''abcdefghijklm'')
   \<and> truncated_text ''abcdefghijklm'' 10 = ''abcdefghij''"
proof -
  let ?a = "''abcdefghi'' @ [NL] @ ''klm''"
  let ?b = "''abcdefgh'' @ [NL] @ ''jklm''"
  let ?c = "''abcdefghijklm''"
  have la: "(10::int) < int (length ?a)" and lb: "(10::int) < int (length ?b)"
    and lc: "(10::int) < int (length ?c)" by simp_all
  have z: "(0::int) \<le> 10" by simp
  have ha: "9 < nat 10 \<and> ?a ! 9 = NL \<and> (\<forall>j. 9 < j \<and> j < nat 10 \<longrightarrow> ?a ! j \<noteq> NL)"
    by auto
  have hb: "8 < nat 10 \<and> ?b ! 8 = NL \<and> (\<forall>j. 8 < j \<and> j < nat 10 \<longrightarrow> ?b ! j \<noteq> NL)"
  proof (intro conjI allI impI)
    fix j :: nat assume "8 < j \<and> j < nat 10"
    then have "j = 9" by simp
    then show "?b ! j \<noteq> NL" by (simp add: NL_def)
  qed simp_all
  have hc: "\<forall>j. j < nat 10 \<longrightarrow> ?c ! j \<noteq> NL"
  proof (intro allI impI)
    fix j :: nat assume "j < nat 10"
    then have "j \<in> {0, 1, 2, 3, 4, 5, 6, 7, 8, 9}" by auto
    then show "?c ! j \<noteq> NL" by (auto simp: NL_def)
  qed
  from C6_cut_strictly_after_four_fifths [OF z la, where i = 9 and path = "''a.py''"] ha
  have "truncated_text ?a 10 = (if 4 * (10::int) < 5 * int 9 then take 9 ?a else take (nat 10) ?a)"
    by blast
  moreover from C6_cut_strictly_after_four_fifths [OF z lb, where i = 8 and path = "''a.py''"] hb
  have "truncated_text ?b 10 = (if 4 * (10::int) < 5 * int 8 then take 8 ?b else take (nat 10) ?b)"
    by blast
  moreover from C6_cut_strictly_after_four_fifths [OF z lc, where i = 0 and path = "''a.py''"] hc
  have "truncated_text ?c 10 = take (nat 10) ?c" by blast
  ultimately show ?thesis by simp
qed

section \<open>The skip classifier\<close>

lemma split_on_not_Nil: "split_on c s \<noteq> []"
  by (induction s) (auto split: list.splits)

lemma split_on_no_sep: "c \<notin> set s \<Longrightarrow> split_on c s = [s]"
  by (induction s) auto

lemma split_on_append: "c \<notin> set s \<Longrightarrow> split_on c (s @ c # t) = s # split_on c t"
  by (induction s) (auto split: list.splits simp: split_on_not_Nil)

lemma split_on_join:
  "segs \<noteq> [] \<Longrightarrow> (\<forall>s\<in>set segs. c \<notin> set s) \<Longrightarrow> split_on c (join [c] segs) = segs"
proof (induction "[c]" segs rule: join.induct)
  case 1
  then show ?case by simp
next
  case (2 x)
  then show ?case by (simp add: split_on_no_sep)
next
  case (3 x y ys)
  then show ?case by (simp add: split_on_append)
qed

lemma path_root_join:
  assumes "\<forall>s\<in>set segs. s \<noteq> [] \<and> SLASH \<notin> set s"
  shows "path_root (join [SLASH] segs) = []"
proof (cases segs)
  case Nil
  then show ?thesis by (simp add: path_root_def)
next
  case (Cons s ss)
  with assms obtain x xs where s: "s = x # xs" "x \<noteq> SLASH" by (cases s) auto
  have "take 1 (join [SLASH] (s # ss)) = [x]" using s by (cases ss) simp_all
  with Cons s show ?thesis by (simp add: path_root_def)
qed

text \<open>A path written as components joined by slashes has exactly these components as
  its parts.\<close>

lemma parts_join:
  assumes "\<forall>s\<in>set segs. s \<noteq> [] \<and> s \<noteq> [DOT] \<and> SLASH \<notin> set s"
  shows "parts (join [SLASH] segs) = segs"
proof (cases "segs = []")
  case True
  then show ?thesis by (simp add: parts_def path_root_def path_tail_def)
next
  case False
  have "split_on SLASH (join [SLASH] segs) = segs"
    using False assms by (intro split_on_join) auto
  moreover have "filter (\<lambda>x. x \<noteq> [] \<and> x \<noteq> [DOT]) segs = segs"
    using assms by (intro filter_True) auto
  moreover have "path_root (join [SLASH] segs) = []" using assms by (intro path_root_join) auto
  ultimately show ?thesis by (simp add: parts_def path_tail_def)
qed

text \<open>
  Claim C7, as amended. A path is skipped when one of its parts other than the last,
  lowercased, is a member of the directory denylist, or ends with \<open>.egg-info\<close> as written
  (this test does not fold case). In particular this holds of a path made of components
  joined by slashes, for any of its components but the last.
\<close>

theorem C7_skipped_directory_part:
  "(part \<in> set (butlast (parts p))
      \<and> (lower part \<in> set SKIP_DIRS \<or> endswith part ''.egg-info'') \<longrightarrow> should_skip p)
   \<and> ((\<forall>s\<in>set segs. s \<noteq> [] \<and> s \<noteq> [DOT] \<and> SLASH \<notin> set s)
        \<and> part \<in> set (butlast segs)
        \<and> (lower part \<in> set SKIP_DIRS \<or> endswith part ''.egg-info'') \<longrightarrow>
        should_skip (join [SLASH] segs))"
proof (intro conjI impI)
  assume "part \<in> set (butlast (parts p))
      \<and> (lower part \<in> set SKIP_DIRS \<or> endswith part ''.egg-info'')"
  then show "should_skip p"
    by (auto simp: should_skip_def Let_def list_ex_iff skip_dir_part_def)
next
  assume h: "(\<forall>s\<in>set segs. s \<noteq> [] \<and> s \<noteq> [DOT] \<and> SLASH \<notin> set s)
        \<and> part \<in> set (butlast segs)
        \<and> (lower part \<in> set SKIP_DIRS \<or> endswith part ''.egg-info'')"
  then have "parts (join [SLASH] segs) = segs" by (intro parts_join) simp
  with h show "should_skip (join [SLASH] segs)"
    by (auto simp: should_skip_def Let_def list_ex_iff skip_dir_part_def)
qed

text \<open>The claim as stated, whatever the casing of the segment, fails for the suffix: a
  directory whose name ends with \<open>.EGG-INFO\<close> is not skipped.\<close>

theorem C7_uppercase_egg_info_not_skipped:
  "parts ''Foo.EGG-INFO/setup.py'' = [''Foo.EGG-INFO'', ''setup.py'']
   \<and> endswith (lower ''Foo.EGG-INFO'') ''.egg-info''
   \<and> \<not> should_skip ''Foo.EGG-INFO/setup.py''"
  by code_simp

theorem C7_skipped_directory_witness:
  "''Node_Modules'' \<in> set (butlast (parts ''web/Node_Modules/left-pad/index.js''))
   \<and> lower ''Node_Modules'' \<in> set SKIP_DIRS
   \<and> should_skip ''web/Node_Modules/left-pad/index.js''
   \<and> ''Foo.egg-info'' \<in> set (butlast [''Foo.egg-info'', ''PKG-INFO''])
   \<and> endswith ''Foo.egg-info'' ''.egg-info''
   \<and> should_skip (join [SLASH] [''Foo.egg-info'', ''PKG-INFO''])"
proof -
  have a: "''Node_Modules'' \<in> set (butlast (parts ''web/Node_Modules/left-pad/index.js''))"
    by code_simp
  have b: "lower ''Node_Modules'' \<in> set SKIP_DIRS" by code_simp
  have c: "''Foo.egg-info'' \<in> set (butlast [''Foo.egg-info'', ''PKG-INFO''])" by simp
  have d: "endswith ''Foo.egg-info'' ''.egg-info''" by code_simp
  have e: "\<forall>s\<in>set [''Foo.egg-info'', ''PKG-INFO'']. s \<noteq> [] \<and> s \<noteq> [DOT] \<and> SLASH \<notin> set s"
    by (simp add: SLASH_def DOT_def)
  show ?thesis
    using C7_skipped_directory_part
            [where part = "''Node_Modules''" and p = "''web/Node_Modules/left-pad/index.js''"]
          C7_skipped_directory_part
            [where part = "''Foo.egg-info''" and segs = "[''Foo.egg-info'', ''PKG-INFO'']"]
          a b c d e
    by blast
qed

section \<open>The file context\<close>

lemma blocks_total_Cons: "blocks_total (f # fs) = int (length (block_of f)) + blocks_total fs"
  by (simp add: blocks_total_def)

lemma blocks_total_Nil: "blocks_total [] = 0"
  by (simp add: blocks_total_def)

lemma blocks_total_take_mono:
  assumes "j \<le> k"
  shows "blocks_total (take j fs) \<le> blocks_total (take k fs)"
proof -
  have "take k fs = take j fs @ take (k - j) (drop j fs)"
    using assms take_add [of j "k - j" fs] by simp
  then have "blocks_total (take k fs)
      = blocks_total (take j fs) + blocks_total (take (k - j) (drop j fs))"
    by (simp add: blocks_total_def)
  moreover have "0 \<le> blocks_total (take (k - j) (drop j fs))"
    unfolding blocks_total_def by (rule sum_list_nonneg) auto
  ultimately show ?thesis by simp
qed

lemma render_blocks_reach:
  "t < CHAR_BUDGET \<Longrightarrow> k \<le> length fs \<Longrightarrow>
   (\<forall>j<k. t + blocks_total (take j fs) < CHAR_BUDGET) \<Longrightarrow>
   CHAR_BUDGET \<le> t + blocks_total (take k fs) \<Longrightarrow>
   render_blocks t fs = map block_of (take k fs) @ [OMITTED]"
proof (induction fs arbitrary: t k)
  case Nil
  then show ?case by (simp add: blocks_total_Nil)
next
  case (Cons f fs)
  from Cons.prems obtain k' where k: "k = Suc k'"
    by (cases k) (auto simp: blocks_total_Nil)
  let ?t = "t + int (length (block_of f))"
  show ?case
  proof (cases "CHAR_BUDGET \<le> ?t")
    case True
    have "k' = 0"
    proof (rule ccontr)
      assume "k' \<noteq> 0"
      then have "1 < k" using k by simp
      with Cons.prems(3) have "t + blocks_total (take 1 (f # fs)) < CHAR_BUDGET" by blast
      with True show False by (simp add: blocks_total_Cons blocks_total_Nil)
    qed
    with True k show ?thesis by (simp add: Let_def)
  next
    case False
    have "render_blocks ?t fs = map block_of (take k' fs) @ [OMITTED]"
    proof (rule Cons.IH)
      show "?t < CHAR_BUDGET" using False by simp
      show "k' \<le> length fs" using Cons.prems k by simp
      show "\<forall>j<k'. ?t + blocks_total (take j fs) < CHAR_BUDGET"
      proof (intro allI impI)
        fix j assume "j < k'"
        then have "Suc j < k" using k by simp
        with Cons.prems(3) have "t + blocks_total (take (Suc j) (f # fs)) < CHAR_BUDGET" by blast
        then show "?t + blocks_total (take j fs) < CHAR_BUDGET" by (simp add: blocks_total_Cons)
      qed
      show "CHAR_BUDGET \<le> ?t + blocks_total (take k' fs)"
        using Cons.prems(4) k by (simp add: blocks_total_Cons)
    qed
    with False k show ?thesis by (simp add: Let_def)
  qed
qed

lemma render_blocks_all:
  "(\<forall>j\<le>length fs. t + blocks_total (take j fs) < CHAR_BUDGET) \<Longrightarrow>
   render_blocks t fs = map block_of fs"
proof (induction fs arbitrary: t)
  case Nil
  then show ?case by simp
next
  case (Cons f fs)
  let ?t = "t + int (length (block_of f))"
  from Cons.prems have "t + blocks_total (take 1 (f # fs)) < CHAR_BUDGET" by (auto dest: spec [where x = 1])
  then have lt: "?t < CHAR_BUDGET" by (simp add: blocks_total_Cons blocks_total_Nil)
  have "render_blocks ?t fs = map block_of fs"
  proof (rule Cons.IH, intro allI impI)
    fix j assume "j \<le> length fs"
    then have "Suc j \<le> length (f # fs)" by simp
    with Cons.prems have "t + blocks_total (take (Suc j) (f # fs)) < CHAR_BUDGET" by blast
    then show "?t + blocks_total (take j fs) < CHAR_BUDGET" by (simp add: blocks_total_Cons)
  qed
  with lt show ?case by (simp add: Let_def)
qed

lemma length_join_ge: "sum_list (map length xs) \<le> length (join sep xs)"
  by (induction sep xs rule: join.induct) auto

lemma render_blocks_overflow:
  "t < CHAR_BUDGET \<Longrightarrow> CHAR_BUDGET \<le> t + blocks_total fs \<Longrightarrow>
   CHAR_BUDGET - t < int (sum_list (map length (render_blocks t fs)))"
proof (induction fs arbitrary: t)
  case Nil
  then show ?case by (simp add: blocks_total_Nil)
next
  case (Cons f fs)
  let ?t = "t + int (length (block_of f))"
  show ?case
  proof (cases "CHAR_BUDGET \<le> ?t")
    case True
    then show ?thesis by (simp add: Let_def OMITTED_def)
  next
    case False
    then have "CHAR_BUDGET - ?t < int (sum_list (map length (render_blocks ?t fs)))"
      using Cons.prems by (intro Cons.IH) (simp_all add: blocks_total_Cons)
    with False show ?thesis by (simp add: Let_def)
  qed
qed

lemma build_file_context_overflow:
  assumes "CHAR_BUDGET \<le> blocks_total files"
  shows "CHAR_BUDGET < int (length (build_file_context files))"
proof -
  have "CHAR_BUDGET - 0 < int (sum_list (map length (render_blocks 0 files)))"
    using assms by (intro render_blocks_overflow) (simp_all add: CHAR_BUDGET_def)
  moreover have "sum_list (map length (render_blocks 0 files)) \<le> length (build_file_context files)"
    unfolding build_file_context_def by (rule length_join_ge)
  ultimately show ?thesis by simp
qed

lemma block_of_short:
  "int (length c) \<le> MAX_FILE_CHARS \<Longrightarrow> block_of (p, c) = ''### '' @ p @ [NL] @ FENCE @ [NL] @ c @ [NL] @ FENCE"
  by (simp add: block_of_def truncate_file_def)

text \<open>
  Claim C3, as amended. The budget is tested after a block has been appended. If the
  running total of block lengths first reaches \<open>CHAR_BUDGET\<close> with the \<open>k\<close>-th block, the
  context is the first \<open>k\<close> blocks and the marker, and no later file is rendered; if it
  never reaches it, the context is all blocks and no marker. The context is not bounded by
  \<open>CHAR_BUDGET\<close>: whenever the blocks of the files total \<open>CHAR_BUDGET\<close> or more, it is longer.
\<close>

theorem C3_budget_checked_after_each_block:
  "(k \<le> length files \<and> (\<forall>j<k. blocks_total (take j files) < CHAR_BUDGET)
      \<and> CHAR_BUDGET \<le> blocks_total (take k files) \<longrightarrow>
      build_file_context files = join [NL, NL] (map block_of (take k files) @ [OMITTED]))
   \<and> ((\<forall>j\<le>length files. blocks_total (take j files) < CHAR_BUDGET) \<longrightarrow>
      build_file_context files = join [NL, NL] (map block_of files))
   \<and> (CHAR_BUDGET \<le> blocks_total files \<longrightarrow>
      CHAR_BUDGET < int (length (build_file_context files)))"
proof (intro conjI impI)
  assume h: "k \<le> length files \<and> (\<forall>j<k. blocks_total (take j files) < CHAR_BUDGET)
      \<and> CHAR_BUDGET \<le> blocks_total (take k files)"
  have "render_blocks 0 files = map block_of (take k files) @ [OMITTED]"
    using h by (intro render_blocks_reach) (simp_all add: CHAR_BUDGET_def)
  then show "build_file_context files = join [NL, NL] (map block_of (take k files) @ [OMITTED])"
    by (simp add: build_file_context_def)
next
  assume "\<forall>j\<le>length files. blocks_total (take j files) < CHAR_BUDGET"
  then have "render_blocks 0 files = map block_of files"
    by (intro render_blocks_all) simp
  then show "build_file_context files = join [NL, NL] (map block_of files)"
    by (simp add: build_file_context_def)
next
  assume "CHAR_BUDGET \<le> blocks_total files"
  then show "CHAR_BUDGET < int (length (build_file_context files))"
    by (rule build_file_context_overflow)
qed

text \<open>The claim as stated, that the context never exceeds the budget, fails: of thirteen
  files of 6000 characters the first twelve are rendered, over 72000 characters.\<close>

theorem C3_context_longer_than_budget:
  "CHAR_BUDGET < int (length (build_file_context
     [(''a.py'', replicate 6000 CHR ''x''), (''b.py'', replicate 6000 CHR ''x''),
      (''c.py'', replicate 6000 CHR ''x''), (''d.py'', replicate 6000 CHR ''x''),
      (''e.py'', replicate 6000 CHR ''x''), (''f.py'', replicate 6000 CHR ''x''),
      (''g.py'', replicate 6000 CHR ''x''), (''h.py'', replicate 6000 CHR ''x''),
      (''i.py'', replicate 6000 CHR ''x''), (''j.py'', replicate 6000 CHR ''x''),
      (''k.py'', replicate 6000 CHR ''x''), (''l.py'', replicate 6000 CHR ''x''),
      (''m.py'', replicate 6000 CHR ''x'')]))"
  by (rule build_file_context_overflow)
     (simp add: blocks_total_def block_of_short MAX_FILE_CHARS_def CHAR_BUDGET_def FENCE_def)

theorem C3_budget_checked_witness:
  "12 \<le> length
     [(''a.py'', replicate 6000 CHR ''x''), (''b.py'', replicate 6000 CHR ''x''),
      (''c.py'', replicate 6000 CHR ''x''), (''d.py'', replicate 6000 CHR ''x''),
      (''e.py'', replicate 6000 CHR ''x''), (''f.py'', replicate 6000 CHR ''x''),
      (''g.py'', replicate 6000 CHR ''x''), (''h.py'', replicate 6000 CHR ''x''),
      (''i.py'', replicate 6000 CHR ''x''), (''j.py'', replicate 6000 CHR ''x''),
      (''k.py'', replicate 6000 CHR ''x''), (''l.py'', replicate 6000 CHR ''x''),
      (''m.py'', replicate 6000 CHR ''x'')]
   \<and> blocks_total (take 11
     [(''a.py'', replicate 6000 CHR ''x''), (''b.py'', replicate 6000 CHR ''x''),
      (''c.py'', replicate 6000 CHR ''x''), (''d.py'', replicate 6000 CHR ''x''),
      (''e.py'', replicate 6000 CHR ''x''), (''f.py'', replicate 6000 CHR ''x''),
      (''g.py'', replicate 6000 CHR ''x''), (''h.py'', replicate 6000 CHR ''x''),
      (''i.py'', replicate 6000 CHR ''x''), (''j.py'', replicate 6000 CHR ''x''),
      (''k.py'', replicate 6000 CHR ''x''), (''l.py'', replicate 6000 CHR ''x''),
      (''m.py'', replicate 6000 CHR ''x'')]) < CHAR_BUDGET
   \<and> CHAR_BUDGET \<le> blocks_total (take 12
     [(''a.py'', replicate 6000 CHR ''x''), (''b.py'', replicate 6000 CHR ''x''),
      (''c.py'', replicate 6000 CHR ''x''), (''d.py'', replicate 6000 CHR ''x''),
      (''e.py'', replicate 6000 CHR ''x''), (''f.py'', replicate 6000 CHR ''x''),
      (''g.py'', replicate 6000 CHR ''x''), (''h.py'', replicate 6000 CHR ''x''),
      (''i.py'', replicate 6000 CHR ''x''), (''j.py'', replicate 6000 CHR ''x''),
      (''k.py'', replicate 6000 CHR ''x''), (''l.py'', replicate 6000 CHR ''x''),
      (''m.py'', replicate 6000 CHR ''x'')])
   \<and> build_file_context
     [(''a.py'', replicate 6000 CHR ''x''), (''b.py'', replicate 6000 CHR ''x''),
      (''c.py'', replicate 6000 CHR ''x''), (''d.py'', replicate 6000 CHR ''x''),
      (''e.py'', replicate 6000 CHR ''x''), (''f.py'', replicate 6000 CHR ''x''),
      (''g.py'', replicate 6000 CHR ''x''), (''h.py'', replicate 6000 CHR ''x''),
      (''i.py'', replicate 6000 CHR ''x''), (''j.py'', replicate 6000 CHR ''x''),
      (''k.py'', replicate 6000 CHR ''x''), (''l.py'', replicate 6000 CHR ''x''),
      (''m.py'', replicate 6000 CHR ''x'')]
     = join [NL, NL] (map block_of (take 12
     [(''a.py'', replicate 6000 CHR ''x''), (''b.py'', replicate 6000 CHR ''x''),
      (''c.py'', replicate 6000 CHR ''x''), (''d.py'', replicate 6000 CHR ''x''),
      (''e.py'', replicate 6000 CHR ''x''), (''f.py'', replicate 6000 CHR ''x''),
      (''g.py'', replicate 6000 CHR ''x''), (''h.py'', replicate 6000 CHR ''x''),
      (''i.py'', replicate 6000 CHR ''x''), (''j.py'', replicate 6000 CHR ''x''),
      (''k.py'', replicate 6000 CHR ''x''), (''l.py'', replicate 6000 CHR ''x''),
      (''m.py'', replicate 6000 CHR ''x'')]) @ [OMITTED])"
proof -
  let ?F = "[(''a.py'', replicate 6000 CHR ''x''), (''b.py'', replicate 6000 CHR ''x''),
      (''c.py'', replicate 6000 CHR ''x''), (''d.py'', replicate 6000 CHR ''x''),
      (''e.py'', replicate 6000 CHR ''x''), (''f.py'', replicate 6000 CHR ''x''),
      (''g.py'', replicate 6000 CHR ''x''), (''h.py'', replicate 6000 CHR ''x''),
      (''i.py'', replicate 6000 CHR ''x''), (''j.py'', replicate 6000 CHR ''x''),
      (''k.py'', replicate 6000 CHR ''x''), (''l.py'', replicate 6000 CHR ''x''),
      (''m.py'', replicate 6000 CHR ''x'')]"
  have a: "12 \<le> length ?F" by simp
  have m: "blocks_total (take 11 ?F) < CHAR_BUDGET"
    by (simp add: blocks_total_def block_of_short MAX_FILE_CHARS_def CHAR_BUDGET_def FENCE_def)
  have b: "\<forall>j<12. blocks_total (take j ?F) < CHAR_BUDGET"
  proof (intro allI impI)
    fix j :: nat
    assume "j < 12"
    then have "blocks_total (take j ?F) \<le> blocks_total (take 11 ?F)"
      by (intro blocks_total_take_mono) simp
    with m show "blocks_total (take j ?F) < CHAR_BUDGET" by simp
  qed
  have c: "CHAR_BUDGET \<le> blocks_total (take 12 ?F)"
    by (simp add: blocks_total_def block_of_short MAX_FILE_CHARS_def CHAR_BUDGET_def FENCE_def)
  from C3_budget_checked_after_each_block [where k = 12 and files = ?F] a b c
  have "build_file_context ?F = join [NL, NL] (map block_of (take 12 ?F) @ [OMITTED])"
    by blast
  with a m c show ?thesis by blast
qed

end
